theory Spec2Isabelle
  imports Main "HOL-Library.Word"
begin

section \<open>The preprocessor state that accelerate_cuda_assert.h works on\<close>

text \<open>
  The header \<^verbatim>\<open>cubits/accelerate_cuda_assert.h\<close> consists of preprocessing directives
  only. Its meaning is the change it makes to the macro table of the translation unit
  that includes it. The directives it uses are \<^verbatim>\<open>#ifndef\<close>, \<^verbatim>\<open>#define\<close>,
  \<^verbatim>\<open>#include\<close>, \<^verbatim>\<open>#if\<close> with \<^verbatim>\<open>defined\<close>, \<^verbatim>\<open>&&\<close> and \<^verbatim>\<open><\<close>,
  \<^verbatim>\<open>#undef\<close> and \<^verbatim>\<open>#endif\<close>; each is given here with the meaning the C
  preprocessor gives it.
\<close>

text \<open>
  A \<^verbatim>\<open>#if\<close> expression is evaluated in the widest integer type. An integer constant
  that does not fit the signed type is read as unsigned, and \<^verbatim>\<open>200\<close> is positive, so
  the comparison on line 24 is the unsigned one on 64 bits.
\<close>

type_synonym uintmax = "64 word"

datatype pp_token = Ident string | Number uintmax | Punct string

text \<open>
  A macro definition: \<^verbatim>\<open>#define NAME tokens\<close>, \<^verbatim>\<open>#define NAME(params) tokens\<close>, or
  a definition that a platform header or the toolchain supplies and whose replacement
  list is not part of this repository (the \<^verbatim>\<open>assert\<close> of \<^verbatim>\<open><assert.h>\<close>).
\<close>

datatype macro =
    ObjectLike "pp_token list"
  | FunctionLike "string list" "pp_token list"
  | PlatformDefined

datatype pp_error =
    Redefinition string
  | MissingOperand
  | IncludeFailed string
  | Unsupported

type_synonym macro_table = "string \<rightharpoonup> macro"

record cpp_state =
  macros :: macro_table
  included :: "string list"

text \<open>Sequencing of directives: the first error stops the translation.\<close>

definition and_then :: "pp_error + 'a \<Rightarrow> ('a \<Rightarrow> pp_error + 'b) \<Rightarrow> pp_error + 'b" where
  "and_then r f = (case r of Inl e \<Rightarrow> Inl e | Inr x \<Rightarrow> f x)"

text \<open>\<^verbatim>\<open>defined(NAME)\<close>, and the test of \<^verbatim>\<open>#ifdef\<close> and \<^verbatim>\<open>#ifndef\<close>.\<close>

definition is_defined :: "cpp_state \<Rightarrow> string \<Rightarrow> bool" where
  "is_defined s n = (macros s n \<noteq> None)"

text \<open>\<^verbatim>\<open>#undef NAME\<close>: never an error, also when the name is not defined.\<close>

definition undef_macro :: "string \<Rightarrow> cpp_state \<Rightarrow> cpp_state" where
  "undef_macro n s = s\<lparr>macros := (macros s)(n := None)\<rparr>"

text \<open>
  \<^verbatim>\<open>#define\<close>: defining a name that already has a different definition is a constraint
  violation; repeating the same definition is allowed.
\<close>

definition define_macro :: "string \<Rightarrow> macro \<Rightarrow> cpp_state \<Rightarrow> pp_error + cpp_state" where
  "define_macro n m s =
     (case macros s n of
        None \<Rightarrow> Inr (s\<lparr>macros := (macros s)(n \<mapsto> m)\<rparr>)
      | Some m' \<Rightarrow> if m' = m then Inr s else Inl (Redefinition n))"

text \<open>
  \<^verbatim>\<open>#include <h>\<close>: the platform headers are not part of this repository. Their
  effect on the macro table is the parameter \<open>sys\<close>; the state records that the
  directive was processed.
\<close>

definition include_system ::
  "(string \<Rightarrow> macro_table \<Rightarrow> pp_error + macro_table) \<Rightarrow> string \<Rightarrow> cpp_state \<Rightarrow> pp_error + cpp_state" where
  "include_system sys h s =
     (case sys h (macros s) of
        Inl e \<Rightarrow> Inl e
      | Inr t \<Rightarrow> Inr (s\<lparr>macros := t, included := included s @ [h]\<rparr>))"

text \<open>
  The value of an identifier that stands in a \<^verbatim>\<open>#if\<close> expression outside
  \<^verbatim>\<open>defined\<close>. An identifier that is not a macro is read as 0; so is the name of a
  function-like macro with no argument list after it, which is not an invocation. An
  object-like macro is replaced by its replacement list: a single integer constant gives
  its value, an empty list leaves \<^verbatim>\<open><\<close> without its left operand. Replacement lists
  that need further expansion or parsing are outside this model and reported as
  \<open>Unsupported\<close>.
\<close>

definition ident_value :: "cpp_state \<Rightarrow> string \<Rightarrow> pp_error + uintmax" where
  "ident_value s n =
     (case macros s n of
        None \<Rightarrow> Inr 0
      | Some (FunctionLike ps body) \<Rightarrow> Inr 0
      | Some (ObjectLike []) \<Rightarrow> Inl MissingOperand
      | Some (ObjectLike [Number v]) \<Rightarrow> Inr v
      | Some (ObjectLike ts) \<Rightarrow> Inl Unsupported
      | Some PlatformDefined \<Rightarrow> Inl Unsupported)"

section \<open>The header\<close>

text \<open>
  Line 24: \<^verbatim>\<open>#if defined(__CUDA_ARCH__) && (__CUDA_ARCH__ < 200)\<close>. The whole
  expression is macro-expanded and parsed before it is evaluated, so a malformed right
  operand is an error also where the left operand is 0.
\<close>

definition gate_condition :: "cpp_state \<Rightarrow> pp_error + bool" where
  "gate_condition s =
     and_then (ident_value s ''__CUDA_ARCH__'')
       (\<lambda>v. Inr (is_defined s ''__CUDA_ARCH__'' \<and> v < 200))"

text \<open>
  Lines 24 to 27, the capability gate:
  \<^verbatim>\<open>
  #if defined(__CUDA_ARCH__) && (__CUDA_ARCH__ < 200)
  #undef  assert
  #define assert(arg)
  #endif
  \<close>
\<close>

definition gate :: "cpp_state \<Rightarrow> pp_error + cpp_state" where
  "gate s =
     and_then (gate_condition s)
       (\<lambda>b. if b
            then define_macro ''assert'' (FunctionLike [''arg''] []) (undef_macro ''assert'' s)
            else Inr s)"

text \<open>
  Lines 16 to 19:
  \<^verbatim>\<open>
  #ifndef __CUDACC_RTC__
  #include <assert.h>
  #include <cuda_runtime.h>
  #endif
  \<close>
\<close>

definition platform_includes ::
  "(string \<Rightarrow> macro_table \<Rightarrow> pp_error + macro_table) \<Rightarrow> cpp_state \<Rightarrow> pp_error + cpp_state" where
  "platform_includes sys s =
     (if \<not> is_defined s ''__CUDACC_RTC__''
      then and_then (include_system sys ''assert.h'' s) (include_system sys ''cuda_runtime.h'')
      else Inr s)"

text \<open>
  The whole header, lines 13 to 29: the include guard, the platform headers, the gate.
\<close>

definition accelerate_cuda_assert_h ::
  "(string \<Rightarrow> macro_table \<Rightarrow> pp_error + macro_table) \<Rightarrow> cpp_state \<Rightarrow> pp_error + cpp_state" where
  "accelerate_cuda_assert_h sys s =
     (if \<not> is_defined s ''__ACCELERATE_CUDA_ASSERT_H__''
      then and_then
             (and_then (define_macro ''__ACCELERATE_CUDA_ASSERT_H__'' (ObjectLike []) s)
                (platform_includes sys))
             gate
      else Inr s)"

text \<open>Processing the gate, or the header, several times in a row.\<close>

fun repeat_gate :: "nat \<Rightarrow> cpp_state \<Rightarrow> pp_error + cpp_state" where
  "repeat_gate 0 s = Inr s"
| "repeat_gate (Suc n) s = and_then (gate s) (repeat_gate n)"

fun repeat_header ::
  "(string \<Rightarrow> macro_table \<Rightarrow> pp_error + macro_table) \<Rightarrow> nat \<Rightarrow> cpp_state \<Rightarrow> pp_error + cpp_state" where
  "repeat_header sys 0 s = Inr s"
| "repeat_header sys (Suc n) s = and_then (accelerate_cuda_assert_h sys s) (repeat_header sys n)"

section \<open>Later uses of assert\<close>

text \<open>
  A use \<^verbatim>\<open>assert(cond);\<close> in the code after the header: the tokens of the condition,
  and the file and line of the use.
\<close>

record use_site =
  cond_text :: "pp_token list"
  in_file :: string
  at_line :: nat

text \<open>
  What a use does to the unit of work that runs it: it goes on, in a state, or it is
  terminated with a diagnostic that names the use.
\<close>

datatype 'st outcome = Continue 'st | Terminated use_site

text \<open>
  Replacing the parameter of a one-parameter macro by the argument in the replacement
  list.
\<close>

fun substitute :: "string \<Rightarrow> pp_token list \<Rightarrow> pp_token list \<Rightarrow> pp_token list" where
  "substitute p arg [] = []"
| "substitute p arg (t # ts) = (if t = Ident p then arg else [t]) @ substitute p arg ts"

text \<open>
  The tokens that \<^verbatim>\<open>assert(cond)\<close> is replaced by, where \<^verbatim>\<open>assert\<close> is a macro of
  this repository with one parameter.
\<close>

definition expand_assert :: "cpp_state \<Rightarrow> pp_token list \<Rightarrow> pp_error + pp_token list" where
  "expand_assert s arg =
     (case macros s ''assert'' of
        Some (FunctionLike [p] body) \<Rightarrow> Inr (substitute p arg body)
      | _ \<Rightarrow> Inl Unsupported)"

text \<open>
  Modelled from the spec: the platform's own assertion facility (\<^verbatim>\<open><assert.h>\<close> and
  the device toolchain's \<^verbatim>\<open>assert\<close>) is not in this repository. The spec gives its
  normal behaviour as: evaluate the condition; if false, terminate the executing unit of
  work and report the failing condition, file and line. The condition is a computation
  on the state of the unit of work that returns its truth value and the state after it.
\<close>

definition native_assert :: "use_site \<Rightarrow> ('st \<Rightarrow> bool \<times> 'st) \<Rightarrow> 'st \<Rightarrow> 'st outcome" where
  "native_assert u c \<sigma> = (case c \<sigma> of (b, \<sigma>') \<Rightarrow> if b then Continue \<sigma>' else Terminated u)"

text \<open>
  Running the statement \<^verbatim>\<open>assert(cond);\<close> under the macro table that preprocessing
  left. With the platform's definition in force it is the native facility. With a
  definition of this repository the use is replaced by its expansion; an expansion with
  no tokens leaves the null statement \<^verbatim>\<open>;\<close>, which does nothing.
\<close>

definition invoke_assert ::
  "cpp_state \<Rightarrow> use_site \<Rightarrow> ('st \<Rightarrow> bool \<times> 'st) \<Rightarrow> 'st \<Rightarrow> pp_error + 'st outcome" where
  "invoke_assert s u c \<sigma> =
     (case macros s ''assert'' of
        Some PlatformDefined \<Rightarrow> Inr (native_assert u c \<sigma>)
      | _ \<Rightarrow> (case expand_assert s (cond_text u) of
                Inl e \<Rightarrow> Inl e
              | Inr [] \<Rightarrow> Inr (Continue \<sigma>)
              | Inr (t # ts) \<Rightarrow> Inl Unsupported))"

section \<open>Sample inputs\<close>

text \<open>
  A platform whose \<^verbatim>\<open><assert.h>\<close> defines \<^verbatim>\<open>assert\<close> and whose other headers define
  no macro, and translation units as the toolchain presents them. A device pass names its
  target in \<^verbatim>\<open>__CUDA_ARCH__\<close> (110 for compute capability 1.1, 200 for 2.0, 350 for
  3.5); a host pass does not define it. \<open>device_pass\<close> and \<open>host_pass\<close> are states
  at line 24, after the platform headers; \<open>other_device_unit\<close> is another unit for the
  same target; \<open>nvcc_unit\<close> and \<open>rtc_unit\<close> are units before the header's first line,
  compiled offline and at run time.
\<close>

definition sample_sys :: "string \<Rightarrow> macro_table \<Rightarrow> pp_error + macro_table" where
  "sample_sys h t = Inr (if h = ''assert.h'' then t(''assert'' \<mapsto> PlatformDefined) else t)"

text \<open>
  A platform whose headers depend on their order: \<^verbatim>\<open><cuda_runtime.h>\<close> is found only
  once \<^verbatim>\<open>assert\<close> is defined, and then defines its own guard.
\<close>

definition strict_sys :: "string \<Rightarrow> macro_table \<Rightarrow> pp_error + macro_table" where
  "strict_sys h t =
     (if h = ''assert.h'' then Inr (t(''assert'' \<mapsto> PlatformDefined))
      else if h = ''cuda_runtime.h'' \<and> t ''assert'' \<noteq> None
      then Inr (t(''__CUDA_RUNTIME_H__'' \<mapsto> ObjectLike []))
      else Inl (IncludeFailed h))"

definition device_pass :: "uintmax \<Rightarrow> cpp_state" where
  "device_pass v =
     \<lparr>macros = [''assert'' \<mapsto> PlatformDefined, ''__CUDA_ARCH__'' \<mapsto> ObjectLike [Number v]],
      included = [''assert.h'', ''cuda_runtime.h'']\<rparr>"

definition host_pass :: cpp_state where
  "host_pass = \<lparr>macros = [''assert'' \<mapsto> PlatformDefined], included = [''assert.h'', ''cuda_runtime.h'']\<rparr>"

definition other_device_unit :: "uintmax \<Rightarrow> cpp_state" where
  "other_device_unit v =
     \<lparr>macros = [''NDEBUG'' \<mapsto> ObjectLike [], ''assert'' \<mapsto> PlatformDefined,
                ''__CUDA_ARCH__'' \<mapsto> ObjectLike [Number v]],
      included = []\<rparr>"

definition rtc_unit :: "uintmax \<Rightarrow> cpp_state" where
  "rtc_unit v =
     \<lparr>macros = [''__CUDACC_RTC__'' \<mapsto> ObjectLike [Number 1], ''__CUDA_ARCH__'' \<mapsto> ObjectLike [Number v]],
      included = []\<rparr>"

definition nvcc_unit :: "uintmax \<Rightarrow> cpp_state" where
  "nvcc_unit v = \<lparr>macros = [''__CUDA_ARCH__'' \<mapsto> ObjectLike [Number v]], included = []\<rparr>"

definition sample_use :: use_site where
  "sample_use = \<lparr>cond_text = [Ident ''i'', Punct ''<'', Ident ''n''], in_file = ''kernel.cu'', at_line = 42\<rparr>"

section \<open>Facts about the directives\<close>

lemma and_then_Inr [simp]: "and_then (Inr x) f = f x"
  by (simp add: and_then_def)

lemma and_then_Inl [simp]: "and_then (Inl e) f = Inl e"
  by (simp add: and_then_def)

lemma gate_condition_number:
  "macros s ''__CUDA_ARCH__'' = Some (ObjectLike [Number v]) \<Longrightarrow> gate_condition s = Inr (v < 200)"
  by (simp add: gate_condition_def ident_value_def is_defined_def)

lemma gate_condition_undefined:
  "macros s ''__CUDA_ARCH__'' = None \<Longrightarrow> gate_condition s = Inr False"
  by (simp add: gate_condition_def ident_value_def is_defined_def)

lemma define_after_undef:
  "define_macro n m (undef_macro n s) = Inr (s\<lparr>macros := (macros s)(n \<mapsto> m)\<rparr>)"
  by (simp add: define_macro_def undef_macro_def)

lemma gate_cases:
  "gate s = (case gate_condition s of
               Inl e \<Rightarrow> Inl e
             | Inr b \<Rightarrow> Inr (if b then s\<lparr>macros := (macros s)(''assert'' \<mapsto> FunctionLike [''arg''] [])\<rparr> else s))"
  by (simp add: gate_def define_after_undef and_then_def split: sum.splits)

lemma header_is_gate_after_includes:
  assumes "macros s ''__ACCELERATE_CUDA_ASSERT_H__'' = None"
  shows "accelerate_cuda_assert_h sys s =
           and_then (platform_includes sys (s\<lparr>macros := (macros s)(''__ACCELERATE_CUDA_ASSERT_H__'' \<mapsto> ObjectLike [])\<rparr>)) gate"
  using assms by (simp add: accelerate_cuda_assert_h_def is_defined_def define_macro_def)

lemma header_guarded:
  "macros s ''__ACCELERATE_CUDA_ASSERT_H__'' \<noteq> None \<Longrightarrow> accelerate_cuda_assert_h sys s = Inr s"
  by (simp add: accelerate_cuda_assert_h_def is_defined_def)

lemma gate_frame:
  assumes "gate s = Inr s'"
  shows "s' = s\<lparr>macros := (macros s)(''assert'' := macros s' ''assert'')\<rparr>"
  using assms by (auto simp: gate_cases split: sum.splits if_splits)

lemma gate_other_names:
  assumes "gate s = Inr s'" and "n \<noteq> ''assert''"
  shows "macros s' n = macros s n"
  using assms by (auto simp: gate_cases split: sum.splits if_splits)

lemma gate_included:
  "gate s = Inr s' \<Longrightarrow> included s' = included s"
  by (auto simp: gate_cases split: sum.splits if_splits)

lemma gate_condition_cong:
  "macros s1 ''__CUDA_ARCH__'' = macros s2 ''__CUDA_ARCH__'' \<Longrightarrow> gate_condition s1 = gate_condition s2"
  by (simp add: gate_condition_def ident_value_def is_defined_def)

lemma gate_twice:
  assumes "gate s = Inr s'"
  shows "gate s' = Inr s'"
proof -
  have "macros s' ''__CUDA_ARCH__'' = macros s ''__CUDA_ARCH__''"
    using assms by (rule gate_other_names) simp
  then have c: "gate_condition s' = gate_condition s"
    by (rule gate_condition_cong)
  show ?thesis
    using assms unfolding gate_cases [of s'] c
    by (auto simp: gate_cases split: sum.splits if_splits)
qed

lemma repeat_gate_fixed: "gate s = Inr s \<Longrightarrow> repeat_gate n s = Inr s"
  by (induction n) simp_all

lemma repeat_header_fixed:
  "accelerate_cuda_assert_h sys s = Inr s \<Longrightarrow> repeat_header sys n s = Inr s"
  by (induction n) simp_all

lemma include_system_keeps:
  assumes "\<forall>h t t'. sys h t = Inr t' \<longrightarrow> t' n = t n" and "include_system sys h s = Inr s'"
  shows "macros s' n = macros s n"
  using assms by (auto simp: include_system_def split: sum.splits)

lemma platform_includes_keeps:
  assumes "\<forall>h t t'. sys h t = Inr t' \<longrightarrow> t' n = t n" and "platform_includes sys s = Inr s'"
  shows "macros s' n = macros s n"
proof (cases "is_defined s ''__CUDACC_RTC__''")
  case True
  with assms(2) show ?thesis by (simp add: platform_includes_def)
next
  case False
  with assms(2) obtain s1 where
    a: "include_system sys ''assert.h'' s = Inr s1" and
    b: "include_system sys ''cuda_runtime.h'' s1 = Inr s'"
    by (auto simp: platform_includes_def and_then_def split: sum.splits)
  from include_system_keeps [OF assms(1) a] include_system_keeps [OF assms(1) b]
  show ?thesis by simp
qed

lemma header_defines_guard:
  assumes sys: "\<forall>h t t'. sys h t = Inr t' \<longrightarrow> t' ''__ACCELERATE_CUDA_ASSERT_H__'' = t ''__ACCELERATE_CUDA_ASSERT_H__''"
    and run: "accelerate_cuda_assert_h sys s = Inr s'"
  shows "macros s' ''__ACCELERATE_CUDA_ASSERT_H__'' \<noteq> None"
proof (cases "macros s ''__ACCELERATE_CUDA_ASSERT_H__''")
  case (Some m)
  with run show ?thesis by (simp add: header_guarded)
next
  case None
  let ?s1 = "s\<lparr>macros := (macros s)(''__ACCELERATE_CUDA_ASSERT_H__'' \<mapsto> ObjectLike [])\<rparr>"
  from run None obtain t where
    a: "platform_includes sys ?s1 = Inr t" and b: "gate t = Inr s'"
    by (auto simp: header_is_gate_after_includes and_then_def split: sum.splits)
  have "macros t ''__ACCELERATE_CUDA_ASSERT_H__'' = macros ?s1 ''__ACCELERATE_CUDA_ASSERT_H__''"
    by (rule platform_includes_keeps [OF sys a])
  moreover have "macros s' ''__ACCELERATE_CUDA_ASSERT_H__'' = macros t ''__ACCELERATE_CUDA_ASSERT_H__''"
    using b by (rule gate_other_names) simp
  ultimately show ?thesis by simp
qed

lemma sample_sys_keeps_guard:
  "\<forall>h t t'. sample_sys h t = Inr t' \<longrightarrow> t' ''__ACCELERATE_CUDA_ASSERT_H__'' = t ''__ACCELERATE_CUDA_ASSERT_H__''"
  by (auto simp: sample_sys_def)

lemma header_on_sample:
  "\<exists>s'. accelerate_cuda_assert_h sample_sys (nvcc_unit 130) = Inr s'
     \<and> macros s' ''assert'' = Some (FunctionLike [''arg''] [])
     \<and> included s' = [''assert.h'', ''cuda_runtime.h'']"
  by (simp add: accelerate_cuda_assert_h_def is_defined_def define_macro_def nvcc_unit_def
        platform_includes_def include_system_def sample_sys_def gate_cases gate_condition_number)

lemma expand_assert_cong:
  "macros s1 ''assert'' = macros s2 ''assert'' \<Longrightarrow> expand_assert s1 arg = expand_assert s2 arg"
  by (simp add: expand_assert_def)

lemma invoke_assert_cong:
  assumes "macros s1 ''assert'' = macros s2 ''assert''"
  shows "invoke_assert s1 u c \<sigma> = invoke_assert s2 u c \<sigma>"
  unfolding invoke_assert_def expand_assert_cong [OF assms] assms ..

lemma gate_device_110:
  "gate (device_pass 110) = Inr ((device_pass 110)\<lparr>macros := (macros (device_pass 110))(''assert'' \<mapsto> FunctionLike [''arg''] [])\<rparr>)"
  by (simp add: gate_cases gate_condition_number device_pass_def)

lemma gate_condition_true_iff:
  "gate_condition s = Inr True \<longleftrightarrow>
     (\<exists>v. macros s ''__CUDA_ARCH__'' = Some (ObjectLike [Number v]) \<and> v < 200)
     \<or> (\<exists>ps body. macros s ''__CUDA_ARCH__'' = Some (FunctionLike ps body))"
  by (auto simp: gate_condition_def ident_value_def is_defined_def
        split: option.splits macro.splits list.splits pp_token.splits)

section \<open>The claims\<close>

text \<open>
  C1. In a device pass whose \<^verbatim>\<open>__CUDA_ARCH__\<close> is below 200 (compute capability
  below 2.0) the gate succeeds and leaves \<^verbatim>\<open>assert\<close> defined with one parameter and an
  empty replacement list. Whatever the condition of a later use is (true, false, or with
  side effects on the state), the use expands to no tokens, the condition is not
  evaluated, and the unit of work goes on in the state it was in.
\<close>

theorem assert_is_noop_below_200:
  assumes "macros s ''__CUDA_ARCH__'' = Some (ObjectLike [Number v])" and "v < 200"
  shows "\<exists>s'. gate s = Inr s'
           \<and> macros s' ''assert'' = Some (FunctionLike [''arg''] [])
           \<and> expand_assert s' (cond_text u) = Inr []
           \<and> invoke_assert s' u c \<sigma> = Inr (Continue \<sigma>)"
  using assms
  by (simp add: gate_cases gate_condition_number expand_assert_def invoke_assert_def)

theorem assert_is_noop_below_200_witness:
  "\<exists>s'. gate (device_pass 110) = Inr s'
      \<and> macros s' ''assert'' = Some (FunctionLike [''arg''] [])
      \<and> expand_assert s' (cond_text sample_use) = Inr []
      \<and> invoke_assert s' sample_use (\<lambda>n::nat. (False, Suc n)) 0 = Inr (Continue 0)"
  using assert_is_noop_below_200 [of "device_pass 110" 110 sample_use "\<lambda>n::nat. (False, Suc n)" 0]
  by (simp add: device_pass_def)

text \<open>
  C2. In a device pass the gate's condition is true exactly when \<^verbatim>\<open>__CUDA_ARCH__\<close> is
  strictly below 200. At exactly 200 (compute capability 2.0) the condition is false and
  the gate returns the state as it found it: the facility stays intact.
\<close>

theorem boundary_at_200:
  assumes "macros s ''__CUDA_ARCH__'' = Some (ObjectLike [Number v])"
  shows "gate_condition s = Inr (v < 200) \<and> (v = 200 \<longrightarrow> gate s = Inr s)"
  using assms by (simp add: gate_cases gate_condition_number)

theorem boundary_at_200_witness:
  "gate_condition (device_pass 200) = Inr False \<and> gate (device_pass 200) = Inr (device_pass 200)"
  using boundary_at_200 [of "device_pass 200" 200]
  by (simp add: device_pass_def)

text \<open>
  C3. In a pass that is not a device pass (\<^verbatim>\<open>__CUDA_ARCH__\<close> is not defined) the gate
  returns the state as it found it, so a later use of \<^verbatim>\<open>assert\<close> does what it did
  before the gate; where the host's own definition was in force, the use is the native
  facility.
\<close>

theorem host_pass_keeps_native:
  assumes "macros s ''__CUDA_ARCH__'' = None"
  shows "\<exists>s'. gate s = Inr s' \<and> s' = s
           \<and> invoke_assert s' u c \<sigma> = invoke_assert s u c \<sigma>
           \<and> (macros s ''assert'' = Some PlatformDefined
                \<longrightarrow> invoke_assert s' u c \<sigma> = Inr (native_assert u c \<sigma>))"
  using assms by (simp add: gate_cases gate_condition_undefined invoke_assert_def)

theorem host_pass_keeps_native_witness:
  "\<exists>s'. gate host_pass = Inr s' \<and> s' = host_pass
     \<and> invoke_assert s' sample_use (\<lambda>n::nat. (False, Suc n)) 0 = Inr (Terminated sample_use)"
  using host_pass_keeps_native [of host_pass sample_use "\<lambda>n::nat. (False, Suc n)" 0]
  by (simp add: host_pass_def native_assert_def)

text \<open>
  C4. In a device pass whose \<^verbatim>\<open>__CUDA_ARCH__\<close> is 200 or more, with the platform's
  \<^verbatim>\<open>assert\<close> in force before the gate, the gate leaves that definition in force. A
  later use whose condition is false terminates the unit of work with a diagnostic that
  names the use; a use whose condition is true lets the unit of work go on, in the state
  the condition left.
\<close>

theorem assert_intact_from_200:
  assumes "macros s ''__CUDA_ARCH__'' = Some (ObjectLike [Number v])" and "200 \<le> v"
    and "macros s ''assert'' = Some PlatformDefined"
  shows "\<exists>s'. gate s = Inr s'
           \<and> macros s' ''assert'' = Some PlatformDefined
           \<and> invoke_assert s' u c \<sigma> =
               Inr (if fst (c \<sigma>) then Continue (snd (c \<sigma>)) else Terminated u)"
  using assms
  by (simp add: gate_cases gate_condition_number invoke_assert_def native_assert_def
        split: prod.splits)

theorem assert_intact_from_200_witness:
  "(\<exists>s'. gate (device_pass 350) = Inr s'
      \<and> invoke_assert s' sample_use (\<lambda>n::nat. (False, Suc n)) 0 = Inr (Terminated sample_use))
   \<and> (\<exists>s'. gate (device_pass 200) = Inr s'
      \<and> invoke_assert s' sample_use (\<lambda>n::nat. (True, Suc n)) 0 = Inr (Continue 1))"
  using assert_intact_from_200 [of "device_pass 350" 350 sample_use "\<lambda>n::nat. (False, Suc n)" 0]
    assert_intact_from_200 [of "device_pass 200" 200 sample_use "\<lambda>n::nat. (True, Suc n)" 0]
  by (simp add: device_pass_def) blast

text \<open>
  C5. Processing the gate \<open>n + 1\<close> times in a row gives the result of processing it
  once, error or final state. The same holds for the whole header, whose include guard
  makes every inclusion after the first do nothing, on a platform whose headers leave the
  guard's name alone.
\<close>

theorem reevaluation_is_idempotent:
  assumes "\<forall>h t t'. sys h t = Inr t' \<longrightarrow> t' ''__ACCELERATE_CUDA_ASSERT_H__'' = t ''__ACCELERATE_CUDA_ASSERT_H__''"
  shows "repeat_gate (Suc n) s = gate s
       \<and> repeat_header sys (Suc n) s = accelerate_cuda_assert_h sys s"
proof
  show "repeat_gate (Suc n) s = gate s"
  proof (cases "gate s")
    case (Inl e)
    then show ?thesis by simp
  next
    case (Inr s')
    then show ?thesis by (simp add: repeat_gate_fixed gate_twice)
  qed
  show "repeat_header sys (Suc n) s = accelerate_cuda_assert_h sys s"
  proof (cases "accelerate_cuda_assert_h sys s")
    case (Inl e)
    then show ?thesis by simp
  next
    case (Inr s')
    from header_defines_guard [OF assms Inr]
    have "accelerate_cuda_assert_h sys s' = Inr s'" by (rule header_guarded)
    with Inr show ?thesis by (simp add: repeat_header_fixed)
  qed
qed

theorem reevaluation_is_idempotent_witness:
  "repeat_gate 3 (device_pass 130) = gate (device_pass 130)
   \<and> (\<exists>s'. repeat_header sample_sys 3 (nvcc_unit 130) = Inr s'
         \<and> macros s' ''assert'' = Some (FunctionLike [''arg''] [])
         \<and> included s' = [''assert.h'', ''cuda_runtime.h''])"
  using reevaluation_is_idempotent [OF sample_sys_keeps_guard, of 2] header_on_sample
  by (simp add: numeral_3_eq_3)

text \<open>
  C6. The condition of line 24 reads nothing but the entry of \<^verbatim>\<open>__CUDA_ARCH__\<close>:
  whether it is defined, and its value. Two translation units that agree on that entry
  get the same decision, and, where the same \<^verbatim>\<open>assert\<close> was in force before, the
  same definition of \<^verbatim>\<open>assert\<close> after the gate. A later use of \<^verbatim>\<open>assert\<close> does
  not read \<^verbatim>\<open>__CUDA_ARCH__\<close> again: changing that entry after preprocessing does
  not change what the use does.
\<close>

theorem decision_reads_arch_only:
  assumes "macros s1 ''__CUDA_ARCH__'' = macros s2 ''__CUDA_ARCH__''"
  shows "gate_condition s1 = gate_condition s2
       \<and> (macros s1 ''assert'' = macros s2 ''assert'' \<longrightarrow>
            map_sum id (\<lambda>s. macros s ''assert'') (gate s1) = map_sum id (\<lambda>s. macros s ''assert'') (gate s2))
       \<and> invoke_assert (s1\<lparr>macros := (macros s1)(''__CUDA_ARCH__'' := x)\<rparr>) u c \<sigma> = invoke_assert s1 u c \<sigma>"
proof -
  have c: "gate_condition s1 = gate_condition s2"
    using assms by (rule gate_condition_cong)
  have "map_sum id (\<lambda>s. macros s ''assert'') (gate s1) = map_sum id (\<lambda>s. macros s ''assert'') (gate s2)"
    if "macros s1 ''assert'' = macros s2 ''assert''"
    using that by (simp add: gate_cases c split: sum.splits)
  moreover have "invoke_assert (s1\<lparr>macros := (macros s1)(''__CUDA_ARCH__'' := x)\<rparr>) u c \<sigma> = invoke_assert s1 u c \<sigma>"
    by (rule invoke_assert_cong) simp
  ultimately show ?thesis using c by blast
qed

theorem decision_reads_arch_only_witness:
  "gate_condition (device_pass 130) = gate_condition (other_device_unit 130)
   \<and> map_sum id (\<lambda>s. macros s ''assert'') (gate (device_pass 130))
       = map_sum id (\<lambda>s. macros s ''assert'') (gate (other_device_unit 130))
   \<and> invoke_assert ((device_pass 130)\<lparr>macros := (macros (device_pass 130))(''__CUDA_ARCH__'' := None)\<rparr>)
        sample_use (\<lambda>n::nat. (False, Suc n)) 0
      = invoke_assert (device_pass 130) sample_use (\<lambda>n::nat. (False, Suc n)) 0"
  using decision_reads_arch_only [of "device_pass 130" "other_device_unit 130"
      None sample_use "\<lambda>n::nat. (False, Suc n)" 0]
  by (simp add: device_pass_def other_device_unit_def)

text \<open>
  C7. The gate (lines 24 to 27) changes at most the definition of \<^verbatim>\<open>assert\<close>: every
  other name keeps its definition, the record of included headers is the same, and the
  state after the gate is the state before it with the entry of \<^verbatim>\<open>assert\<close>
  replaced.
\<close>

theorem gate_changes_assert_only:
  assumes "gate s = Inr s'"
  shows "included s' = included s
       \<and> (\<forall>n. n \<noteq> ''assert'' \<longrightarrow> macros s' n = macros s n)
       \<and> s' = s\<lparr>macros := (macros s)(''assert'' := macros s' ''assert'')\<rparr>"
  using gate_included [OF assms] gate_other_names [OF assms] gate_frame [OF assms]
  by blast

theorem gate_changes_assert_only_witness:
  "included ((device_pass 110)\<lparr>macros := (macros (device_pass 110))(''assert'' \<mapsto> FunctionLike [''arg''] [])\<rparr>)
     = [''assert.h'', ''cuda_runtime.h'']
   \<and> macros ((device_pass 110)\<lparr>macros := (macros (device_pass 110))(''assert'' \<mapsto> FunctionLike [''arg''] [])\<rparr>) ''__CUDA_ARCH__''
     = Some (ObjectLike [Number 110])"
  using gate_changes_assert_only [OF gate_device_110]
  by (simp add: device_pass_def)

text \<open>
  C8. Whether \<^verbatim>\<open>__CUDA_ARCH__\<close> is undefined or defined as an integer constant of any
  value, the gate ends without an error. A later use of \<^verbatim>\<open>assert\<close> then either does
  what it did before the gate or does nothing, so the gate adds no way to fail.
\<close>

theorem gate_never_fails:
  assumes "macros s ''__CUDA_ARCH__'' = None \<or> macros s ''__CUDA_ARCH__'' = Some (ObjectLike [Number v])"
  shows "\<exists>s'. gate s = Inr s'
           \<and> (invoke_assert s' u c \<sigma> = invoke_assert s u c \<sigma>
              \<or> invoke_assert s' u c \<sigma> = Inr (Continue \<sigma>))"
  using assms
proof
  assume "macros s ''__CUDA_ARCH__'' = None"
  then show ?thesis by (simp add: gate_cases gate_condition_undefined)
next
  assume "macros s ''__CUDA_ARCH__'' = Some (ObjectLike [Number v])"
  then show ?thesis
    by (simp add: gate_cases gate_condition_number invoke_assert_def expand_assert_def)
qed

theorem gate_never_fails_witness:
  "(\<exists>s'. gate host_pass = Inr s') \<and> (\<exists>s'. gate (device_pass 130) = Inr s') \<and> (\<exists>s'. gate (device_pass 750) = Inr s')"
  using gate_never_fails [of host_pass 0 sample_use "\<lambda>n::nat. (False, Suc n)" 0]
    gate_never_fails [of "device_pass 130" 130 sample_use "\<lambda>n::nat. (False, Suc n)" 0]
    gate_never_fails [of "device_pass 750" 750 sample_use "\<lambda>n::nat. (False, Suc n)" 0]
  by (simp add: device_pass_def host_pass_def) blast

text \<open>
  C9. With \<^verbatim>\<open>__CUDA_ARCH__\<close> undefined the condition is false and the gate returns the
  state as it found it. The condition is true only for a defined \<^verbatim>\<open>__CUDA_ARCH__\<close>
  that reads as a value below 200: an integer constant below 200, or a name defined as a
  function-like macro, which the preprocessor reads as 0.
\<close>

theorem undefined_arch_keeps_assert:
  "(macros s ''__CUDA_ARCH__'' = None \<longrightarrow> gate_condition s = Inr False \<and> gate s = Inr s)
   \<and> (gate_condition s = Inr True \<longleftrightarrow>
        (\<exists>v. macros s ''__CUDA_ARCH__'' = Some (ObjectLike [Number v]) \<and> v < 200)
        \<or> (\<exists>ps body. macros s ''__CUDA_ARCH__'' = Some (FunctionLike ps body)))"
  using gate_condition_true_iff [of s]
  by (simp add: gate_cases gate_condition_undefined)

theorem undefined_arch_keeps_assert_witness:
  "gate_condition host_pass = Inr False \<and> gate host_pass = Inr host_pass"
  using undefined_arch_keeps_assert [of host_pass]
  by (simp add: host_pass_def)

text \<open>
  C10. On a first inclusion of the header with \<^verbatim>\<open>__CUDACC_RTC__\<close> defined, no platform
  header is read, whatever the platform offers: the result is the gate run on the state
  with the include guard defined. Without \<^verbatim>\<open>__CUDACC_RTC__\<close> the platform's
  \<^verbatim>\<open>assert.h\<close> is applied to the macro table with the guard defined, then the
  platform's \<^verbatim>\<open>cuda_runtime.h\<close> to the table that \<^verbatim>\<open>assert.h\<close> left, and the same
  gate runs on the table the two headers produced; a header that fails stops the
  translation before the gate.
\<close>

theorem rtc_skips_platform_headers:
  assumes "macros s ''__ACCELERATE_CUDA_ASSERT_H__'' = None"
  shows "accelerate_cuda_assert_h sys s =
           (if macros s ''__CUDACC_RTC__'' \<noteq> None
            then gate (s\<lparr>macros := (macros s)(''__ACCELERATE_CUDA_ASSERT_H__'' \<mapsto> ObjectLike [])\<rparr>)
            else case sys ''assert.h'' ((macros s)(''__ACCELERATE_CUDA_ASSERT_H__'' \<mapsto> ObjectLike [])) of
                   Inl e \<Rightarrow> Inl e
                 | Inr t1 \<Rightarrow>
                     (case sys ''cuda_runtime.h'' t1 of
                        Inl e \<Rightarrow> Inl e
                      | Inr t2 \<Rightarrow>
                          gate (s\<lparr>macros := t2,
                                  included := included s @ [''assert.h'', ''cuda_runtime.h'']\<rparr>)))
       \<and> (\<forall>s'. accelerate_cuda_assert_h sys s = Inr s' \<longrightarrow>
             included s' = (if macros s ''__CUDACC_RTC__'' \<noteq> None then included s
                            else included s @ [''assert.h'', ''cuda_runtime.h'']))"
proof (cases "macros s ''__CUDACC_RTC__'' \<noteq> None")
  case True
  then have "accelerate_cuda_assert_h sys s =
      gate (s\<lparr>macros := (macros s)(''__ACCELERATE_CUDA_ASSERT_H__'' \<mapsto> ObjectLike [])\<rparr>)"
    using assms by (simp add: header_is_gate_after_includes platform_includes_def is_defined_def)
  with True show ?thesis by (auto dest: gate_included)
next
  case False
  then have "accelerate_cuda_assert_h sys s =
      (case sys ''assert.h'' ((macros s)(''__ACCELERATE_CUDA_ASSERT_H__'' \<mapsto> ObjectLike [])) of
         Inl e \<Rightarrow> Inl e
       | Inr t1 \<Rightarrow>
           (case sys ''cuda_runtime.h'' t1 of
              Inl e \<Rightarrow> Inl e
            | Inr t2 \<Rightarrow>
                gate (s\<lparr>macros := t2,
                        included := included s @ [''assert.h'', ''cuda_runtime.h'']\<rparr>)))"
    using assms
    by (simp add: header_is_gate_after_includes platform_includes_def is_defined_def
          include_system_def split: sum.splits)
  with False show ?thesis by (auto dest: gate_included split: sum.splits)
qed

theorem rtc_skips_platform_headers_witness:
  "(\<exists>s'. accelerate_cuda_assert_h strict_sys (rtc_unit 350) = Inr s'
       \<and> included s' = [] \<and> macros s' ''assert'' = None
       \<and> macros s' ''__CUDA_RUNTIME_H__'' = None)
   \<and> (\<exists>s'. accelerate_cuda_assert_h strict_sys (nvcc_unit 350) = Inr s'
       \<and> included s' = [''assert.h'', ''cuda_runtime.h'']
       \<and> macros s' ''assert'' = Some PlatformDefined
       \<and> macros s' ''__CUDA_RUNTIME_H__'' = Some (ObjectLike []))
   \<and> (\<exists>s'. accelerate_cuda_assert_h strict_sys (rtc_unit 130) = Inr s'
       \<and> included s' = [] \<and> macros s' ''assert'' = Some (FunctionLike [''arg''] [])
       \<and> macros s' ''__CUDA_RUNTIME_H__'' = None)
   \<and> (\<exists>s'. accelerate_cuda_assert_h strict_sys (nvcc_unit 130) = Inr s'
       \<and> included s' = [''assert.h'', ''cuda_runtime.h'']
       \<and> macros s' ''assert'' = Some (FunctionLike [''arg''] [])
       \<and> macros s' ''__CUDA_RUNTIME_H__'' = Some (ObjectLike []))"
  using rtc_skips_platform_headers [of "rtc_unit 350" strict_sys]
    rtc_skips_platform_headers [of "nvcc_unit 350" strict_sys]
    rtc_skips_platform_headers [of "rtc_unit 130" strict_sys]
    rtc_skips_platform_headers [of "nvcc_unit 130" strict_sys]
  by (simp add: rtc_unit_def nvcc_unit_def strict_sys_def gate_cases gate_condition_number)

end
